theory Spec2Isabelle
  imports Main "HOL-Library.Char_ord" "HOL-Library.List_Lexorder"
begin

section \<open>The tensor collector of \<^verbatim>\<open>openfaas/collector-kp/collector.py\<close>\<close>

text \<open>
  The collector is one Python module: a loop that, every \<^verbatim>\<open>COLLECT_PERIOD\<close> seconds,
  lists the pods of the node, derives the tensors of the models that run there, lists the
  shared-memory directory, and removes the tensors that nobody needs and whose keep-alive
  time has passed. The model below follows it function by function.

  \<^item> A tensor and a model are names (\<^typ>\<open>string\<close>).
  \<^item> A \<^verbatim>\<open>datetime\<close> is an \<^typ>\<open>int\<close>, the number of microseconds on the clock;
    \<^verbatim>\<open>timedelta(minutes=m)\<close> is \<open>m * 60000000\<close>.
  \<^item> \<^verbatim>\<open>keep_alive_dict\<close> is a map from tensors to timestamps.
  \<^item> A Python \<^verbatim>\<open>set\<close> is a HOL set; where the code iterates over one, the model
    iterates over the list \<open>iter S\<close>, for an iteration order \<open>iter\<close> that is a parameter.
  \<^item> Each round of the loop of \<^verbatim>\<open>get_expired_tensor\<close> calls
    \<^verbatim>\<open>datetime.datetime.now()\<close> exactly once, in either branch, and handles one
    element of the set; so the readings of the clock in one call are a function \<open>now\<close>
    from the tensor handled to the value read in its round.
  \<^item> The two directories belong to the file system, which other processes change as
    well: a record of the entries of \<^verbatim>\<open>MEMORY_PATH\<close> and of \<^verbatim>\<open>LOCK_PATH\<close>.
  \<^item> The code has no \<^verbatim>\<open>try\<close>: what a system call raises leaves every function
    on the way out. A call that can raise takes the set of tensors (or the flag) for which
    it does so from a record of faults, and the model returns the error as a value.
  \<^item> The system calls with an effect are recorded as events, in program order.
  \<^item> Left to the inputs of a round: the answer of the pod API, and what other processes
    do to the two directories between rounds. A call of \<^verbatim>\<open>fcntl.lockf\<close> is taken
    to return; how long it waits for a reader is not part of the model.
\<close>

subsection \<open>Constants and types\<close>

type_synonym tensor = string
type_synonym timestamp = int
type_synonym keep_alive = "tensor \<rightharpoonup> timestamp"

definition COLLECT_PERIOD :: int where
  "COLLECT_PERIOD = 5"

definition KEEP_ALIVE :: int where
  "KEEP_ALIVE = 1"

definition timedelta_minutes :: "int \<Rightarrow> int" where
  "timedelta_minutes m = m * 60000000"

record pod =
  pod_name :: string
  pod_node :: "string option"

record node_fs =
  memory_files :: "tensor list"
  lock_files :: "tensor set"

record faults =
  listdir_fails :: bool
  open_fails :: "tensor set"
  lockf_fails :: "tensor set"
  remove_fails :: "tensor set"

datatype error =
    ListdirError
  | OpenError tensor
  | LockfError tensor
  | RemoveError tensor
  | KeyError string

datatype event =
    Open_lock tensor
  | Lockf_EX tensor
  | Os_remove tensor
  | Lockf_UN tensor

subsection \<open>\<^verbatim>\<open>get_existing_tensors\<close>\<close>

text \<open>
  \<^verbatim>\<open>os.listdir(MEMORY_PATH)\<close> raises when the directory cannot be read; otherwise
  the loop adds every entry to a set.
\<close>

definition get_existing_tensors :: "faults \<Rightarrow> node_fs \<Rightarrow> error + tensor set" where
  "get_existing_tensors flt fs =
     (if listdir_fails flt then Inl ListdirError else Inr (set (memory_files fs)))"

subsection \<open>\<^verbatim>\<open>is_running\<close>\<close>

text \<open>
  \<^verbatim>\<open>model in p\<close> on two strings asks whether \<open>model\<close> occurs in \<open>p\<close> as a
  contiguous piece: \<open>str_in model p\<close>, which tries every position of \<open>p\<close>.
\<close>

fun starts_with :: "string \<Rightarrow> string \<Rightarrow> bool" where
  "starts_with [] p = True"
| "starts_with (c # cs) [] = False"
| "starts_with (c # cs) (x # xs) = (c = x \<and> starts_with cs xs)"

fun str_in :: "string \<Rightarrow> string \<Rightarrow> bool" where
  "str_in m [] = (m = [])"
| "str_in m (x # xs) = (starts_with m (x # xs) \<or> str_in m xs)"

fun is_running :: "string \<Rightarrow> string list \<Rightarrow> bool" where
  "is_running model [] = False"
| "is_running model (p # pods) = (if str_in model p then True else is_running model pods)"

subsection \<open>\<^verbatim>\<open>get_expired_tensor\<close>\<close>

text \<open>
  The loop over \<^verbatim>\<open>delete_tensor_set\<close>, with the set of expired tensors and the
  dictionary as its state. The dictionary is the caller's object, changed in place: the
  model returns it next to the result.
\<close>

fun expired_loop ::
  "(tensor \<Rightarrow> timestamp) \<Rightarrow> tensor list \<Rightarrow> tensor set \<times> keep_alive \<Rightarrow> tensor set \<times> keep_alive"
where
  "expired_loop now [] (expired_tensors, keep_alive_dict) = (expired_tensors, keep_alive_dict)"
| "expired_loop now (t # ts) (expired_tensors, keep_alive_dict) =
     (case keep_alive_dict t of
        Some stamp \<Rightarrow>
          if stamp + timedelta_minutes KEEP_ALIVE \<le> now t
          then expired_loop now ts (insert t expired_tensors, keep_alive_dict)
          else expired_loop now ts (expired_tensors, keep_alive_dict)
      | None \<Rightarrow> expired_loop now ts (expired_tensors, keep_alive_dict(t \<mapsto> now t)))"

definition get_expired_tensor ::
  "(tensor \<Rightarrow> timestamp) \<Rightarrow> tensor list \<Rightarrow> keep_alive \<Rightarrow> tensor set \<times> keep_alive"
where
  "get_expired_tensor now delete_tensor_set keep_alive_dict =
     expired_loop now delete_tensor_set ({}, keep_alive_dict)"

subsection \<open>\<^verbatim>\<open>delete_tensors\<close>\<close>

text \<open>
  One round per tensor. The result is what the call raised, if anything, the file system
  it leaves, and the events in program order. \<^verbatim>\<open>open(lock_file, "w")\<close> on a file
  that exists leaves the directory as it is; \<^verbatim>\<open>fcntl.lockf(f, LOCK_EX)\<close> returns
  once it holds the lock.
\<close>

fun delete_tensors ::
  "faults \<Rightarrow> tensor list \<Rightarrow> node_fs \<Rightarrow> error option \<times> node_fs \<times> event list"
where
  "delete_tensors flt [] fs = (None, fs, [])"
| "delete_tensors flt (t # ts) fs =
     (if t \<in> lock_files fs \<and> t \<in> set (memory_files fs) then
        if t \<in> open_fails flt then (Some (OpenError t), fs, [])
        else if t \<in> lockf_fails flt then (Some (LockfError t), fs, [Open_lock t])
        else if t \<in> remove_fails flt then (Some (RemoveError t), fs, [Open_lock t, Lockf_EX t])
        else
          (case delete_tensors flt ts (fs\<lparr>memory_files := removeAll t (memory_files fs)\<rparr>) of
             (raised, fs', evs) \<Rightarrow>
               (raised, fs', [Open_lock t, Lockf_EX t, Os_remove t, Lockf_UN t] @ evs))
      else delete_tensors flt ts fs)"

subsection \<open>\<^verbatim>\<open>node_collector\<close>\<close>

text \<open>
  What one round of \<^verbatim>\<open>while True\<close> is given: the pods the API lists, the file
  system and its faults at that time, and the readings of the clock.
\<close>

record cycle_input =
  pod_list :: "pod list"
  fs_in :: node_fs
  faults_in :: faults
  now_in :: "tensor \<Rightarrow> timestamp"

text \<open>
  The loop \<^verbatim>\<open>for m in running_models\<close>; \<^verbatim>\<open>model_tensors[m]\<close> raises
  \<^verbatim>\<open>KeyError\<close> for a model without an entry.
\<close>

fun union_tensors ::
  "(string \<rightharpoonup> tensor set) \<Rightarrow> string list \<Rightarrow> tensor set \<Rightarrow> error + tensor set"
where
  "union_tensors model_tensors [] running_tensor_set = Inr running_tensor_set"
| "union_tensors model_tensors (m # ms) running_tensor_set =
     (case model_tensors m of
        None \<Rightarrow> Inl (KeyError m)
      | Some tensors \<Rightarrow> union_tensors model_tensors ms (running_tensor_set \<union> tensors))"

text \<open>
  The body of the loop up to the call of \<^verbatim>\<open>get_expired_tensor\<close>; the record holds
  the local variables of the round and the dictionary as that call leaves it.
\<close>

record plan =
  running_tensor_set :: "tensor set"
  existing_tensor_set :: "tensor set"
  delete_tensor_set :: "tensor set"
  expired_tensor_set :: "tensor set"
  keep_alive_dict :: keep_alive

definition collector_plan ::
  "(tensor set \<Rightarrow> tensor list) \<Rightarrow> string list \<Rightarrow> (string \<rightharpoonup> tensor set) \<Rightarrow> string \<Rightarrow>
   cycle_input \<Rightarrow> keep_alive \<Rightarrow> error + plan"
where
  "collector_plan iter models model_tensors node_name c d =
     (let running_pods = map pod_name (filter (\<lambda>p. pod_node p = Some node_name) (pod_list c));
          running_models = filter (\<lambda>m. is_running m running_pods) models
      in case union_tensors model_tensors running_models {} of
           Inl e \<Rightarrow> Inl e
         | Inr running \<Rightarrow>
             (case get_existing_tensors (faults_in c) (fs_in c) of
                Inl e \<Rightarrow> Inl e
              | Inr existing \<Rightarrow>
                  (case get_expired_tensor (now_in c) (iter (existing - running)) d of
                     (expired, d') \<Rightarrow>
                       Inr \<lparr>running_tensor_set = running,
                            existing_tensor_set = existing,
                            delete_tensor_set = existing - running,
                            expired_tensor_set = expired,
                            keep_alive_dict = d'\<rparr>)))"

text \<open>One round of the loop: the plan, then \<^verbatim>\<open>delete_tensors\<close> on what expired.\<close>

record cycle_result =
  raised :: "error option"
  fs_out :: node_fs
  events :: "event list"
  dict_out :: keep_alive

definition node_collector_cycle ::
  "(tensor set \<Rightarrow> tensor list) \<Rightarrow> string list \<Rightarrow> (string \<rightharpoonup> tensor set) \<Rightarrow> string \<Rightarrow>
   cycle_input \<Rightarrow> keep_alive \<Rightarrow> cycle_result"
where
  "node_collector_cycle iter models model_tensors node_name c d =
     (case collector_plan iter models model_tensors node_name c d of
        Inl e \<Rightarrow> \<lparr>raised = Some e, fs_out = fs_in c, events = [], dict_out = d\<rparr>
      | Inr p \<Rightarrow>
          (case delete_tensors (faults_in c) (iter (expired_tensor_set p)) (fs_in c) of
             (r, fs', evs) \<Rightarrow>
               \<lparr>raised = r, fs_out = fs', events = evs, dict_out = keep_alive_dict p\<rparr>))"

text \<open>
  The loop itself, on the inputs of its first rounds. An error that a round raises ends
  the process: the rounds after it do not run. The loop starts from the empty dictionary
  (\<^verbatim>\<open>keep_alive_dict = {}\<close>).
\<close>

record run_result =
  crashed :: "error option"
  cycles_done :: nat
  final_dict :: keep_alive
  all_events :: "event list"

fun collector_loop ::
  "(tensor set \<Rightarrow> tensor list) \<Rightarrow> string list \<Rightarrow> (string \<rightharpoonup> tensor set) \<Rightarrow> string \<Rightarrow>
   cycle_input list \<Rightarrow> keep_alive \<Rightarrow> run_result"
where
  "collector_loop iter models model_tensors node_name [] d =
     \<lparr>crashed = None, cycles_done = 0, final_dict = d, all_events = []\<rparr>"
| "collector_loop iter models model_tensors node_name (c # cs) d =
     (let r = node_collector_cycle iter models model_tensors node_name c d in
      case raised r of
        Some e \<Rightarrow>
          \<lparr>crashed = Some e, cycles_done = 0, final_dict = dict_out r, all_events = events r\<rparr>
      | None \<Rightarrow>
          (let rest = collector_loop iter models model_tensors node_name cs (dict_out r) in
           rest\<lparr>cycles_done := Suc (cycles_done rest),
                all_events := events r @ all_events rest\<rparr>))"

definition node_collector ::
  "(tensor set \<Rightarrow> tensor list) \<Rightarrow> string list \<Rightarrow> (string \<rightharpoonup> tensor set) \<Rightarrow> string \<Rightarrow>
   cycle_input list \<Rightarrow> run_result"
where
  "node_collector iter models model_tensors node_name cs =
     collector_loop iter models model_tensors node_name cs Map.empty"

text \<open>
  An iteration order gives, for a finite set, its elements, each once.
\<close>

definition iterates :: "(tensor set \<Rightarrow> tensor list) \<Rightarrow> bool" where
  "iterates iter = (\<forall>S. finite S \<longrightarrow> set (iter S) = S \<and> distinct (iter S))"

subsection \<open>Reading the events\<close>

text \<open>The tensor an event is about.\<close>

fun event_tensor :: "event \<Rightarrow> tensor" where
  "event_tensor (Open_lock t) = t"
| "event_tensor (Lockf_EX t) = t"
| "event_tensor (Os_remove t) = t"
| "event_tensor (Lockf_UN t) = t"

text \<open>
  In a list of events, every removal comes right after the opening and the exclusive
  locking of the lock file of the same tensor, and right before its unlocking.
\<close>

definition guarded :: "event list \<Rightarrow> bool" where
  "guarded evs = (\<forall>pre t post. evs = pre @ Os_remove t # post \<longrightarrow>
     (\<exists>pre'. pre = pre' @ [Open_lock t, Lockf_EX t]) \<and> (\<exists>post'. post = Lockf_UN t # post'))"

subsection \<open>The scenario of the specification\<close>

text \<open>
  Two models, \<open>m1\<close> with the tensors \<open>a\<close> and \<open>b\<close> and \<open>m2\<close> with \<open>b\<close> and
  \<open>c\<close>, on a node whose cache holds \<open>a\<close>, \<open>b\<close>, \<open>c\<close> and \<open>d\<close>. A round
  is given the names of the pods on the node, the tensors that have a lock file, the
  faults and one reading of the clock.
\<close>

definition scenario_models :: "string list" where
  "scenario_models = [''m1'', ''m2'']"

definition scenario_tensors :: "string \<rightharpoonup> tensor set" where
  "scenario_tensors = [''m1'' \<mapsto> {''a'', ''b''}, ''m2'' \<mapsto> {''b'', ''c''}]"

definition no_faults :: faults where
  "no_faults = \<lparr>listdir_fails = False, open_fails = {}, lockf_fails = {}, remove_fails = {}\<rparr>"

definition scenario_input :: "string list \<Rightarrow> tensor set \<Rightarrow> faults \<Rightarrow> timestamp \<Rightarrow> cycle_input" where
  "scenario_input pods locks f t =
     \<lparr>pod_list = map (\<lambda>n. \<lparr>pod_name = n, pod_node = Some ''node1''\<rparr>) pods,
      fs_in = \<lparr>memory_files = [''a'', ''b'', ''c'', ''d''], lock_files = locks\<rparr>,
      faults_in = f,
      now_in = (\<lambda>_. t)\<rparr>"

text \<open>Faults for the scenario: the cache directory cannot be listed; some removals fail.\<close>

definition listdir_fault :: faults where
  "listdir_fault = \<lparr>listdir_fails = True, open_fails = {}, lockf_fails = {}, remove_fails = {}\<rparr>"

definition remove_fault :: "tensor set \<Rightarrow> faults" where
  "remove_fault ts = \<lparr>listdir_fails = False, open_fails = {}, lockf_fails = {}, remove_fails = ts\<rparr>"

section \<open>What the functions compute\<close>

subsection \<open>\<^verbatim>\<open>get_expired_tensor\<close> in closed form\<close>

lemma grace_positive: "0 < timedelta_minutes KEEP_ALIVE"
  by (simp add: timedelta_minutes_def KEEP_ALIVE_def)

lemma expired_loop_fst:
  "fst (expired_loop now xs (E, d)) =
     E \<union> {t \<in> set xs. \<exists>s. d t = Some s \<and> s + timedelta_minutes KEEP_ALIVE \<le> now t}"
proof (induction xs arbitrary: E d)
  case Nil
  then show ?case by simp
next
  case (Cons x xs)
  show ?case
  proof (cases "d x")
    case None
    have "fst (expired_loop now (x # xs) (E, d)) = fst (expired_loop now xs (E, d(x \<mapsto> now x)))"
      using None by simp
    also have "\<dots> = E \<union> {t \<in> set xs. \<exists>s. (d(x \<mapsto> now x)) t = Some s \<and> s + timedelta_minutes KEEP_ALIVE \<le> now t}"
      by (rule Cons.IH)
    also have "\<dots> = E \<union> {t \<in> set (x # xs). \<exists>s. d t = Some s \<and> s + timedelta_minutes KEEP_ALIVE \<le> now t}"
      using None grace_positive by auto
    finally show ?thesis .
  next
    case (Some s)
    then show ?thesis using Cons.IH by auto
  qed
qed

lemma expired_loop_snd:
  "snd (expired_loop now xs (E, d)) t =
     (case d t of Some s \<Rightarrow> Some s | None \<Rightarrow> if t \<in> set xs then Some (now t) else None)"
proof (induction xs arbitrary: E d)
  case Nil
  then show ?case by (simp split: option.splits)
next
  case (Cons x xs)
  then show ?case by (cases "d x") (auto split: option.splits)
qed

lemma get_expired_tensor_expired:
  "fst (get_expired_tensor now xs d) =
     {t \<in> set xs. \<exists>s. d t = Some s \<and> s + timedelta_minutes KEEP_ALIVE \<le> now t}"
  by (simp add: get_expired_tensor_def expired_loop_fst)

lemma get_expired_tensor_dict:
  "snd (get_expired_tensor now xs d) t =
     (case d t of Some s \<Rightarrow> Some s | None \<Rightarrow> if t \<in> set xs then Some (now t) else None)"
  by (simp add: get_expired_tensor_def expired_loop_snd)

subsection \<open>\<^verbatim>\<open>is_running\<close> and the union of the tensors\<close>

lemma starts_with_iff: "starts_with m p \<longleftrightarrow> (\<exists>suf. p = m @ suf)"
  by (induction m p rule: starts_with.induct) auto

lemma str_in_iff: "str_in m p \<longleftrightarrow> (\<exists>pre suf. p = pre @ m @ suf)"
proof (induction p)
  case Nil
  then show ?case by auto
next
  case (Cons x xs)
  show ?case
  proof
    assume "str_in m (x # xs)"
    then consider "starts_with m (x # xs)" | "str_in m xs" by auto
    then show "\<exists>pre suf. x # xs = pre @ m @ suf"
    proof cases
      case 1
      then obtain suf where "x # xs = m @ suf" by (auto simp: starts_with_iff)
      then have "x # xs = [] @ m @ suf" by simp
      then show ?thesis by blast
    next
      case 2
      then obtain pre suf where "xs = pre @ m @ suf" using Cons.IH by auto
      then have "x # xs = (x # pre) @ m @ suf" by simp
      then show ?thesis by blast
    qed
  next
    assume "\<exists>pre suf. x # xs = pre @ m @ suf"
    then obtain pre suf where e: "x # xs = pre @ m @ suf" by blast
    show "str_in m (x # xs)"
    proof (cases pre)
      case Nil
      then have "starts_with m (x # xs)" using e by (auto simp: starts_with_iff)
      then show ?thesis by simp
    next
      case (Cons y ys)
      then have "xs = ys @ m @ suf" using e by simp
      then have "str_in m xs" using Cons.IH by blast
      then show ?thesis by simp
    qed
  qed
qed

lemma is_running_iff: "is_running m pods \<longleftrightarrow> (\<exists>w \<in> set pods. str_in m w)"
  by (induction pods) auto

lemma union_tensors_Inr:
  "set ms \<subseteq> dom mt \<Longrightarrow> union_tensors mt ms acc = Inr (acc \<union> (\<Union>m \<in> set ms. the (mt m)))"
  by (induction ms arbitrary: acc) (auto split: option.splits)

lemma union_tensors_Inl:
  "union_tensors mt ms acc = Inl e \<Longrightarrow> \<exists>m \<in> set ms. mt m = None \<and> e = KeyError m"
  by (induction ms arbitrary: acc) (auto split: option.splits)

subsection \<open>\<^verbatim>\<open>delete_tensors\<close>: files, locks and events\<close>

lemma delete_tensors_lock_files:
  "delete_tensors flt ts fs = (r, fs', evs) \<Longrightarrow> lock_files fs' = lock_files fs"
  by (induction ts arbitrary: fs r fs' evs) (auto split: if_splits prod.splits)

lemma delete_tensors_events_about:
  "delete_tensors flt ts fs = (r, fs', evs) \<Longrightarrow> e \<in> set evs \<Longrightarrow>
     event_tensor e \<in> set ts \<and> event_tensor e \<in> lock_files fs \<and>
     event_tensor e \<in> set (memory_files fs)"
proof (induction ts arbitrary: fs r fs' evs)
  case Nil
  then show ?case by simp
next
  case (Cons x xs)
  then show ?case
    by (fastforce split: if_splits prod.splits)
qed

lemma delete_tensors_memory:
  "delete_tensors flt ts fs = (r, fs', evs) \<Longrightarrow>
     set (memory_files fs') = set (memory_files fs) - {t. Os_remove t \<in> set evs}"
proof (induction ts arbitrary: fs r fs' evs)
  case Nil
  then show ?case by simp
next
  case (Cons x xs)
  show ?case
  proof (cases "x \<in> lock_files fs \<and> x \<in> set (memory_files fs)")
    case False
    then have "delete_tensors flt xs fs = (r, fs', evs)" using Cons.prems by auto
    then show ?thesis by (rule Cons.IH)
  next
    case True
    show ?thesis
    proof (cases "x \<in> open_fails flt \<or> x \<in> lockf_fails flt \<or> x \<in> remove_fails flt")
      case True
      then show ?thesis using Cons.prems \<open>x \<in> lock_files fs \<and> x \<in> set (memory_files fs)\<close>
        by (auto split: if_splits)
    next
      case False
      obtain r0 fs0 evs0 where
        rec: "delete_tensors flt xs (fs\<lparr>memory_files := removeAll x (memory_files fs)\<rparr>) = (r0, fs0, evs0)"
        by (metis prod_cases3)
      have eq: "r = r0" "fs' = fs0" "evs = [Open_lock x, Lockf_EX x, Os_remove x, Lockf_UN x] @ evs0"
        using Cons.prems True False rec by auto
      have "set (memory_files fs0) =
              set (memory_files (fs\<lparr>memory_files := removeAll x (memory_files fs)\<rparr>)) - {t. Os_remove t \<in> set evs0}"
        using rec by (rule Cons.IH)
      then show ?thesis using eq by auto
    qed
  qed
qed

lemma delete_tensors_absent:
  "\<forall>t \<in> set ts. t \<notin> set (memory_files fs) \<Longrightarrow> delete_tensors flt ts fs = (None, fs, [])"
  by (induction ts) auto

lemma delete_tensors_unlocked:
  "\<forall>t \<in> set ts. t \<notin> lock_files fs \<Longrightarrow> delete_tensors flt ts fs = (None, fs, [])"
  by (induction ts) auto

lemma guarded_block:
  assumes "guarded evs"
  shows "guarded ([Open_lock u, Lockf_EX u, Os_remove u, Lockf_UN u] @ evs)"
  unfolding guarded_def
proof (intro allI impI)
  fix pre t post
  assume e: "[Open_lock u, Lockf_EX u, Os_remove u, Lockf_UN u] @ evs = pre @ Os_remove t # post"
  show "(\<exists>pre'. pre = pre' @ [Open_lock t, Lockf_EX t]) \<and> (\<exists>post'. post = Lockf_UN t # post')"
  proof (cases pre)
    case Nil
    then show ?thesis using e by simp
  next
    case c1: (Cons a p1)
    show ?thesis
    proof (cases p1)
      case Nil
      then show ?thesis using e c1 by simp
    next
      case c2: (Cons b p2)
      show ?thesis
      proof (cases p2)
        case Nil
        then show ?thesis using e c1 c2 by auto
      next
        case c3: (Cons c p3)
        show ?thesis
        proof (cases p3)
          case Nil
          then show ?thesis using e c1 c2 c3 by simp
        next
          case c4: (Cons d p4)
          then have "evs = p4 @ Os_remove t # post" using e c1 c2 c3 by simp
          then obtain pre' post' where "p4 = pre' @ [Open_lock t, Lockf_EX t]" "post = Lockf_UN t # post'"
            using assms unfolding guarded_def by blast
          then have "pre = (a # b # c # d # pre') @ [Open_lock t, Lockf_EX t]" "post = Lockf_UN t # post'"
            using c1 c2 c3 c4 by simp_all
          then show ?thesis by blast
        qed
      qed
    qed
  qed
qed

lemma guarded_no_remove: "\<forall>t. Os_remove t \<notin> set evs \<Longrightarrow> guarded evs"
  unfolding guarded_def by auto

lemma delete_tensors_guarded:
  "delete_tensors flt ts fs = (r, fs', evs) \<Longrightarrow> guarded evs"
proof (induction ts arbitrary: fs r fs' evs)
  case Nil
  then show ?case by (simp add: guarded_no_remove)
next
  case (Cons x xs)
  show ?case
  proof (cases "x \<in> lock_files fs \<and> x \<in> set (memory_files fs)")
    case False
    then have "delete_tensors flt xs fs = (r, fs', evs)" using Cons.prems by auto
    then show ?thesis by (rule Cons.IH)
  next
    case True
    show ?thesis
    proof (cases "x \<in> open_fails flt \<or> x \<in> lockf_fails flt \<or> x \<in> remove_fails flt")
      case True
      then have "\<forall>t. Os_remove t \<notin> set evs"
        using Cons.prems \<open>x \<in> lock_files fs \<and> x \<in> set (memory_files fs)\<close>
        by (auto split: if_splits)
      then show ?thesis by (rule guarded_no_remove)
    next
      case False
      obtain r0 fs0 evs0 where
        rec: "delete_tensors flt xs (fs\<lparr>memory_files := removeAll x (memory_files fs)\<rparr>) = (r0, fs0, evs0)"
        by (metis prod_cases3)
      have eq: "evs = [Open_lock x, Lockf_EX x, Os_remove x, Lockf_UN x] @ evs0"
        using Cons.prems True False rec by auto
      have "guarded evs0" using rec by (rule Cons.IH)
      then show ?thesis unfolding eq by (rule guarded_block)
    qed
  qed
qed

subsection \<open>One round of the loop\<close>

lemma iterates_set: "iterates iter \<Longrightarrow> finite S \<Longrightarrow> set (iter S) = S"
  by (simp add: iterates_def)

lemma collector_plan_Inr:
  assumes "collector_plan iter models mt node c d = Inr p"
  shows "\<not> listdir_fails (faults_in c)"
    and "existing_tensor_set p = set (memory_files (fs_in c))"
    and "delete_tensor_set p = existing_tensor_set p - running_tensor_set p"
    and "union_tensors mt
           (filter (\<lambda>m. is_running m (map pod_name (filter (\<lambda>q. pod_node q = Some node) (pod_list c)))) models) {}
         = Inr (running_tensor_set p)"
    and "get_expired_tensor (now_in c) (iter (delete_tensor_set p)) d = (expired_tensor_set p, keep_alive_dict p)"
  using assms
  by (auto simp: collector_plan_def get_existing_tensors_def Let_def split: sum.splits if_splits prod.splits)

lemma collector_plan_Inl:
  assumes "collector_plan iter models mt node c d = Inl e"
  shows "e = ListdirError \<or> (\<exists>m. e = KeyError m)"
  using assms
  by (auto simp: collector_plan_def get_existing_tensors_def Let_def split: sum.splits if_splits prod.splits dest: union_tensors_Inl)

lemma plan_finite:
  assumes "collector_plan iter models mt node c d = Inr p"
  shows "finite (delete_tensor_set p)"
  using collector_plan_Inr(2,3)[OF assms] by simp

lemma plan_expired:
  assumes "iterates iter" "collector_plan iter models mt node c d = Inr p"
  shows "expired_tensor_set p =
     {t \<in> delete_tensor_set p. \<exists>s. d t = Some s \<and> s + timedelta_minutes KEEP_ALIVE \<le> now_in c t}"
proof -
  have "expired_tensor_set p = fst (get_expired_tensor (now_in c) (iter (delete_tensor_set p)) d)"
    using collector_plan_Inr(5)[OF assms(2)] by simp
  then show ?thesis
    using iterates_set[OF assms(1) plan_finite[OF assms(2)]]
    by (simp add: get_expired_tensor_expired)
qed

lemma plan_dict:
  assumes "iterates iter" "collector_plan iter models mt node c d = Inr p"
  shows "keep_alive_dict p t =
     (case d t of Some s \<Rightarrow> Some s
      | None \<Rightarrow> if t \<in> delete_tensor_set p then Some (now_in c t) else None)"
proof -
  have "keep_alive_dict p = snd (get_expired_tensor (now_in c) (iter (delete_tensor_set p)) d)"
    using collector_plan_Inr(5)[OF assms(2)] by simp
  then show ?thesis
    using iterates_set[OF assms(1) plan_finite[OF assms(2)]]
    by (simp add: get_expired_tensor_dict)
qed

lemma plan_expired_finite:
  assumes "iterates iter" "collector_plan iter models mt node c d = Inr p"
  shows "finite (expired_tensor_set p)"
  using plan_expired[OF assms] plan_finite[OF assms(2)] by simp

lemma cycle_Inl:
  assumes "collector_plan iter models mt node c d = Inl e"
  shows "node_collector_cycle iter models mt node c d =
           \<lparr>raised = Some e, fs_out = fs_in c, events = [], dict_out = d\<rparr>"
  using assms by (simp add: node_collector_cycle_def)

lemma cycle_Inr:
  assumes "collector_plan iter models mt node c d = Inr p"
  shows "delete_tensors (faults_in c) (iter (expired_tensor_set p)) (fs_in c) =
           (raised (node_collector_cycle iter models mt node c d),
            fs_out (node_collector_cycle iter models mt node c d),
            events (node_collector_cycle iter models mt node c d))"
    and "dict_out (node_collector_cycle iter models mt node c d) = keep_alive_dict p"
  using assms by (auto simp: node_collector_cycle_def split: prod.splits)

lemma cycle_events_expired:
  assumes "iterates iter" "collector_plan iter models mt node c d = Inr p"
    and "e \<in> set (events (node_collector_cycle iter models mt node c d))"
  shows "event_tensor e \<in> expired_tensor_set p"
    and "event_tensor e \<in> lock_files (fs_in c)"
proof -
  have "event_tensor e \<in> set (iter (expired_tensor_set p)) \<and> event_tensor e \<in> lock_files (fs_in c)"
    using delete_tensors_events_about[OF cycle_Inr(1)[OF assms(2)] assms(3)] by simp
  then show "event_tensor e \<in> expired_tensor_set p" "event_tensor e \<in> lock_files (fs_in c)"
    using iterates_set[OF assms(1) plan_expired_finite[OF assms(1,2)]] by simp_all
qed

lemma cycle_dict:
  "dict_out (node_collector_cycle iter models mt node c d) t =
     (case collector_plan iter models mt node c d of Inl e \<Rightarrow> d t | Inr p \<Rightarrow> keep_alive_dict p t)"
  by (auto simp: node_collector_cycle_def split: sum.splits prod.splits)

lemma iterates_sorted: "iterates sorted_list_of_set"
  by (simp add: iterates_def)

lemma union_tensors_result:
  "union_tensors mt ms acc = Inr R \<Longrightarrow>
     R = acc \<union> {t. \<exists>m \<in> set ms. \<exists>ts. mt m = Some ts \<and> t \<in> ts}"
proof (induction ms arbitrary: acc)
  case Nil
  then show ?case by simp
next
  case (Cons m ms)
  then obtain ts where ts: "mt m = Some ts" and rec: "union_tensors mt ms (acc \<union> ts) = Inr R"
    by (auto split: option.splits)
  have "R = (acc \<union> ts) \<union> {t. \<exists>m \<in> set ms. \<exists>ts. mt m = Some ts \<and> t \<in> ts}"
    using rec by (rule Cons.IH)
  then show ?case using ts by auto
qed

lemma plan_running:
  assumes "collector_plan iter models mt node c d = Inr p"
  shows "running_tensor_set p =
     {t. \<exists>m \<in> set models.
           is_running m (map pod_name (filter (\<lambda>q. pod_node q = Some node) (pod_list c))) \<and>
           (\<exists>ts. mt m = Some ts \<and> t \<in> ts)}"
  using union_tensors_result[OF collector_plan_Inr(4)[OF assms]] by auto

lemma delete_tensors_raised:
  "delete_tensors flt ts fs = (Some e, fs', evs) \<Longrightarrow>
     \<exists>u \<in> set ts. u \<in> lock_files fs \<and> u \<in> set (memory_files fs) \<and>
       (e = OpenError u \<or> e = LockfError u \<or> e = RemoveError u)"
proof (induction ts arbitrary: fs fs' evs)
  case Nil
  then show ?case by simp
next
  case (Cons x xs)
  then show ?case
    by (fastforce split: if_splits prod.splits)
qed

lemma delete_tensors_append:
  "delete_tensors flt (xs @ ys) fs =
     (case delete_tensors flt xs fs of
        (None, fs1, evs1) \<Rightarrow>
          (case delete_tensors flt ys fs1 of (r, fs2, evs2) \<Rightarrow> (r, fs2, evs1 @ evs2))
      | (Some e, fs1, evs1) \<Rightarrow> (Some e, fs1, evs1))"
proof (induction xs arbitrary: fs)
  case Nil
  then show ?case by (simp split: prod.splits)
next
  case (Cons x xs)
  then show ?case by (simp split: prod.splits option.splits)
qed

lemma guarded_removal:
  assumes "guarded evs" and "Os_remove t \<in> set evs"
  shows "\<exists>pre post. evs = pre @ [Open_lock t, Lockf_EX t, Os_remove t, Lockf_UN t] @ post"
proof -
  obtain a b where e: "evs = a @ Os_remove t # b"
    using assms(2) by (auto simp: in_set_conv_decomp)
  then obtain pre post where "a = pre @ [Open_lock t, Lockf_EX t]" "b = Lockf_UN t # post"
    using assms(1) unfolding guarded_def by blast
  then have "evs = pre @ [Open_lock t, Lockf_EX t, Os_remove t, Lockf_UN t] @ post"
    using e by simp
  then show ?thesis by blast
qed

lemma cycle_dict_keeps:
  assumes "d t = Some s"
  shows "dict_out (node_collector_cycle iter models mt node c d) t = Some s"
proof (cases "collector_plan iter models mt node c d")
  case (Inl e)
  then show ?thesis using assms by (simp add: cycle_Inl)
next
  case (Inr p)
  have "keep_alive_dict p = snd (get_expired_tensor (now_in c) (iter (delete_tensor_set p)) d)"
    using collector_plan_Inr(5)[OF Inr] by simp
  then show ?thesis using assms cycle_Inr(2)[OF Inr] by (simp add: get_expired_tensor_dict)
qed

lemma loop_dict_keeps:
  "d t = Some s \<Longrightarrow> final_dict (collector_loop iter models mt node cs d) t = Some s"
proof (induction cs arbitrary: d)
  case Nil
  then show ?case by simp
next
  case (Cons c cs)
  let ?r = "node_collector_cycle iter models mt node c d"
  have k: "dict_out ?r t = Some s"
    using Cons.prems by (rule cycle_dict_keeps)
  show ?case
  proof (cases "raised ?r")
    case None
    have "final_dict (collector_loop iter models mt node cs (dict_out ?r)) t = Some s"
      by (rule Cons.IH) (rule k)
    then show ?thesis using None by (simp add: Let_def)
  next
    case (Some e)
    then show ?thesis using k by (simp add: Let_def)
  qed
qed

subsection \<open>Errors\<close>

lemma loop_crash:
  assumes "raised (node_collector_cycle iter models mt node c d) = Some e"
  shows "crashed (collector_loop iter models mt node (c # cs) d) = Some e"
    and "cycles_done (collector_loop iter models mt node (c # cs) d) = 0"
    and "all_events (collector_loop iter models mt node (c # cs) d) =
           events (node_collector_cycle iter models mt node c d)"
  using assms by (simp_all add: Let_def)

lemma plan_listdir_fails:
  assumes "listdir_fails (faults_in c)" and "set models \<subseteq> dom mt"
  shows "collector_plan iter models mt node c d = Inl ListdirError"
proof -
  let ?ms = "filter (\<lambda>m. is_running m (map pod_name (filter (\<lambda>p. pod_node p = Some node) (pod_list c)))) models"
  have "set ?ms \<subseteq> dom mt" using assms(2) by auto
  then have "union_tensors mt ?ms {} = Inr ({} \<union> (\<Union>m \<in> set ?ms. the (mt m)))"
    by (rule union_tensors_Inr)
  then show ?thesis
    using assms(1) by (simp add: collector_plan_def get_existing_tensors_def Let_def)
qed

lemma delete_tensors_fails_at:
  assumes "t \<in> lock_files fs" and "t \<in> set (memory_files fs)"
    and "t \<in> open_fails flt \<or> t \<in> lockf_fails flt \<or> t \<in> remove_fails flt"
  shows "delete_tensors flt (t # ts) fs =
     (if t \<in> open_fails flt then (Some (OpenError t), fs, [])
      else if t \<in> lockf_fails flt then (Some (LockfError t), fs, [Open_lock t])
      else (Some (RemoveError t), fs, [Open_lock t, Lockf_EX t]))"
  using assms by auto

section \<open>The properties of the specification\<close>

text \<open>
  C2, no premature eviction. In every round, a tensor of a model that has a running pod
  on the node is in \<open>running_tensor_set\<close>, and no tensor of that set is in the
  set given to \<^verbatim>\<open>delete_tensors\<close>, is iterated over there, or is removed:
  what is given to \<^verbatim>\<open>delete_tensors\<close>, and what is removed, lies in the cached
  tensors without the live ones.
\<close>

theorem no_premature_eviction:
  assumes "iterates iter"
    and "collector_plan iter models model_tensors node_name c d = Inr p"
  shows "(\<forall>t. (\<exists>m \<in> set models. \<exists>ts.
                 is_running m (map pod_name (filter (\<lambda>q. pod_node q = Some node_name) (pod_list c))) \<and>
                 model_tensors m = Some ts \<and> t \<in> ts)
              \<longrightarrow> t \<in> running_tensor_set p)
       \<and> (\<forall>t \<in> running_tensor_set p.
             t \<notin> expired_tensor_set p \<and> t \<notin> set (iter (expired_tensor_set p)) \<and>
             Os_remove t \<notin> set (events (node_collector_cycle iter models model_tensors node_name c d)))
       \<and> expired_tensor_set p \<subseteq> existing_tensor_set p - running_tensor_set p
       \<and> {t. Os_remove t \<in> set (events (node_collector_cycle iter models model_tensors node_name c d))}
            \<subseteq> existing_tensor_set p - running_tensor_set p"
proof -
  let ?r = "node_collector_cycle iter models model_tensors node_name c d"
  have sub: "expired_tensor_set p \<subseteq> existing_tensor_set p - running_tensor_set p"
    using plan_expired[OF assms] collector_plan_Inr(3)[OF assms(2)] by auto
  have it: "set (iter (expired_tensor_set p)) = expired_tensor_set p"
    using iterates_set[OF assms(1) plan_expired_finite[OF assms]] .
  have rem: "Os_remove t \<in> set (events ?r) \<Longrightarrow> t \<in> expired_tensor_set p" for t
    using cycle_events_expired(1)[OF assms, of "Os_remove t"] by simp
  have live: "(\<exists>m \<in> set models. \<exists>ts.
                 is_running m (map pod_name (filter (\<lambda>q. pod_node q = Some node_name) (pod_list c))) \<and>
                 model_tensors m = Some ts \<and> t \<in> ts) \<Longrightarrow> t \<in> running_tensor_set p" for t
    unfolding plan_running[OF assms(2)] by blast
  show ?thesis using sub it rem live by blast
qed

theorem no_premature_eviction_witness:
  "iterates sorted_list_of_set \<and>
   (\<exists>p. collector_plan sorted_list_of_set scenario_models scenario_tensors ''node1''
          (scenario_input [''pod-m1-xyz''] {''a'', ''b'', ''c'', ''d''} no_faults 65000000)
          [''a'' \<mapsto> 0, ''c'' \<mapsto> 0, ''d'' \<mapsto> 0] = Inr p \<and>
        ''a'' \<in> running_tensor_set p \<and> ''a'' \<notin> expired_tensor_set p \<and>
        ''c'' \<in> expired_tensor_set p \<and>
        Os_remove ''a'' \<notin> set (events (node_collector_cycle sorted_list_of_set scenario_models
          scenario_tensors ''node1''
          (scenario_input [''pod-m1-xyz''] {''a'', ''b'', ''c'', ''d''} no_faults 65000000)
          [''a'' \<mapsto> 0, ''c'' \<mapsto> 0, ''d'' \<mapsto> 0])))"
proof -
  let ?c = "scenario_input [''pod-m1-xyz''] {''a'', ''b'', ''c'', ''d''} no_faults 65000000"
  let ?d = "[''a'' \<mapsto> 0, ''c'' \<mapsto> 0, ''d'' \<mapsto> (0::int)]"
  let ?plan = "collector_plan sorted_list_of_set scenario_models scenario_tensors ''node1'' ?c ?d"
  have "case ?plan of Inl e \<Rightarrow> False
        | Inr p \<Rightarrow> ''a'' \<in> running_tensor_set p \<and> ''c'' \<in> expired_tensor_set p"
    by code_simp
  then obtain p where p: "?plan = Inr p"
    and a: "''a'' \<in> running_tensor_set p" and c: "''c'' \<in> expired_tensor_set p"
    by (cases ?plan) auto
  show ?thesis
    using no_premature_eviction[OF iterates_sorted p] a c p iterates_sorted by blast
qed

text \<open>
  C3, the lower bound of the grace period. In a round, a tensor without an entry in the
  dictionary is not among the expired tensors and is not removed, and when it is stale
  it gets the reading of the clock of that round as its entry. A tensor is expired exactly
  when it is stale and the clock has reached its timestamp plus the keep-alive time; a
  tensor that is removed had an entry at least that old. The keep-alive time is one
  minute.
\<close>

theorem grace_period_lower_bound:
  assumes "iterates iter"
    and "collector_plan iter models model_tensors node_name c d = Inr p"
  shows "(d t = None \<longrightarrow>
            t \<notin> expired_tensor_set p \<and>
            Os_remove t \<notin> set (events (node_collector_cycle iter models model_tensors node_name c d)) \<and>
            (t \<in> delete_tensor_set p \<longrightarrow> keep_alive_dict p t = Some (now_in c t)))
       \<and> (t \<in> expired_tensor_set p \<longleftrightarrow>
            t \<in> delete_tensor_set p \<and>
            (\<exists>stamp. d t = Some stamp \<and> timedelta_minutes KEEP_ALIVE \<le> now_in c t - stamp))
       \<and> (Os_remove t \<in> set (events (node_collector_cycle iter models model_tensors node_name c d)) \<longrightarrow>
            (\<exists>stamp. d t = Some stamp \<and> timedelta_minutes KEEP_ALIVE \<le> now_in c t - stamp))
       \<and> timedelta_minutes KEEP_ALIVE = 60000000"
proof -
  let ?r = "node_collector_cycle iter models model_tensors node_name c d"
  have ex: "t \<in> expired_tensor_set p \<longleftrightarrow>
            t \<in> delete_tensor_set p \<and>
            (\<exists>stamp. d t = Some stamp \<and> timedelta_minutes KEEP_ALIVE \<le> now_in c t - stamp)"
    unfolding plan_expired[OF assms] by (auto simp: algebra_simps)
  have rem: "Os_remove t \<in> set (events ?r) \<Longrightarrow> t \<in> expired_tensor_set p"
    using cycle_events_expired(1)[OF assms, of "Os_remove t"] by simp
  have new: "d t = None \<Longrightarrow> t \<in> delete_tensor_set p \<Longrightarrow> keep_alive_dict p t = Some (now_in c t)"
    by (simp add: plan_dict[OF assms])
  have g: "timedelta_minutes KEEP_ALIVE = 60000000"
    by (simp add: timedelta_minutes_def KEEP_ALIVE_def)
  show ?thesis using ex rem new g by auto
qed

theorem grace_period_lower_bound_witness:
  "iterates sorted_list_of_set \<and>
   (\<exists>p. collector_plan sorted_list_of_set scenario_models scenario_tensors ''node1''
          (scenario_input [''pod-m1-xyz''] {''a'', ''b'', ''c'', ''d''} no_faults 1000000)
          [''d'' \<mapsto> 0] = Inr p \<and>
        ''c'' \<in> delete_tensor_set p \<and> ''c'' \<notin> expired_tensor_set p \<and>
        keep_alive_dict p ''c'' = Some 1000000 \<and>
        ''d'' \<in> delete_tensor_set p \<and> ''d'' \<notin> expired_tensor_set p \<and>
        Os_remove ''c'' \<notin> set (events (node_collector_cycle sorted_list_of_set scenario_models
          scenario_tensors ''node1''
          (scenario_input [''pod-m1-xyz''] {''a'', ''b'', ''c'', ''d''} no_faults 1000000)
          [''d'' \<mapsto> 0])))"
proof -
  let ?c = "scenario_input [''pod-m1-xyz''] {''a'', ''b'', ''c'', ''d''} no_faults 1000000"
  let ?d = "[''d'' \<mapsto> (0::int)]"
  let ?plan = "collector_plan sorted_list_of_set scenario_models scenario_tensors ''node1'' ?c ?d"
  have "case ?plan of Inl e \<Rightarrow> False
        | Inr p \<Rightarrow> ''c'' \<in> delete_tensor_set p \<and> ''d'' \<in> delete_tensor_set p"
    by code_simp
  then obtain p where p: "?plan = Inr p"
    and c: "''c'' \<in> delete_tensor_set p" and d: "''d'' \<in> delete_tensor_set p"
    by (cases ?plan) auto
  have n: "?d ''c'' = None" "?d ''d'' = Some 0" by simp_all
  have t: "now_in ?c ''c'' = 1000000" "now_in ?c ''d'' = 1000000"
    by (simp_all add: scenario_input_def)
  have g: "timedelta_minutes KEEP_ALIVE = 60000000"
    by (simp add: timedelta_minutes_def KEEP_ALIVE_def)
  have "''c'' \<notin> expired_tensor_set p"
    "keep_alive_dict p ''c'' = Some 1000000"
    "Os_remove ''c'' \<notin> set (events (node_collector_cycle sorted_list_of_set scenario_models
          scenario_tensors ''node1'' ?c ?d))"
    using grace_period_lower_bound[OF iterates_sorted p, of "''c''"] c n t by simp_all
  moreover have "''d'' \<notin> expired_tensor_set p"
    using grace_period_lower_bound[OF iterates_sorted p, of "''d''"] d n t g by simp
  ultimately show ?thesis using p c d iterates_sorted by blast
qed

text \<open>
  C5, fail-safe deletion. A tensor given to \<^verbatim>\<open>delete_tensors\<close> that has no
  lock file stays in the cache in that round, whatever its timestamp and the clock are:
  no event of the round is about it. Its entry in the dictionary stays as it was, and
  in a following round in which it is stale again and the clock has not gone back it is
  given to \<^verbatim>\<open>delete_tensors\<close> again.
\<close>

theorem fail_safe_deletion:
  assumes "iterates iter"
    and "collector_plan iter models model_tensors node_name c d = Inr p"
    and "t \<in> expired_tensor_set p"
    and "t \<notin> lock_files (fs_in c)"
  shows "t \<in> set (memory_files (fs_in c))
       \<and> t \<in> set (memory_files (fs_out (node_collector_cycle iter models model_tensors node_name c d)))
       \<and> (\<forall>e \<in> set (events (node_collector_cycle iter models model_tensors node_name c d)).
             event_tensor e \<noteq> t)
       \<and> d t \<noteq> None
       \<and> dict_out (node_collector_cycle iter models model_tensors node_name c d) t = d t
       \<and> (\<forall>c' p'. collector_plan iter models model_tensors node_name c'
                     (dict_out (node_collector_cycle iter models model_tensors node_name c d)) = Inr p' \<and>
                   t \<in> delete_tensor_set p' \<and> now_in c t \<le> now_in c' t
                   \<longrightarrow> t \<in> expired_tensor_set p')"
proof -
  let ?r = "node_collector_cycle iter models model_tensors node_name c d"
  obtain stamp where del: "t \<in> delete_tensor_set p" and st: "d t = Some stamp"
    and old: "stamp + timedelta_minutes KEEP_ALIVE \<le> now_in c t"
    using assms(3) unfolding plan_expired[OF assms(1,2)] by auto
  have mem: "t \<in> set (memory_files (fs_in c))"
    using del collector_plan_Inr(2,3)[OF assms(2)] by simp
  have noev: "\<forall>e \<in> set (events ?r). event_tensor e \<noteq> t"
    using cycle_events_expired(2)[OF assms(1,2)] assms(4) by blast
  then have "Os_remove t \<notin> set (events ?r)" by force
  then have mem': "t \<in> set (memory_files (fs_out ?r))"
    using delete_tensors_memory[OF cycle_Inr(1)[OF assms(2)]] mem by simp
  have dict: "dict_out ?r t = d t"
    using cycle_Inr(2)[OF assms(2)] plan_dict[OF assms(1,2), of t] st by simp
  have retry: "t \<in> expired_tensor_set p'"
    if "collector_plan iter models model_tensors node_name c' (dict_out ?r) = Inr p'"
      and "t \<in> delete_tensor_set p'" and "now_in c t \<le> now_in c' t" for c' p'
    unfolding plan_expired[OF assms(1) that(1)] using that(2,3) dict st old by auto
  show ?thesis using mem mem' noev st dict retry by auto
qed

theorem fail_safe_deletion_witness:
  "iterates sorted_list_of_set \<and>
   (\<exists>p. collector_plan sorted_list_of_set scenario_models scenario_tensors ''node1''
          (scenario_input [''pod-m1-xyz''] {''a'', ''b'', ''c''} no_faults 65000000)
          [''c'' \<mapsto> 0, ''d'' \<mapsto> 0] = Inr p \<and>
        ''d'' \<in> expired_tensor_set p \<and>
        ''d'' \<notin> lock_files (fs_in (scenario_input [''pod-m1-xyz''] {''a'', ''b'', ''c''} no_faults 65000000)) \<and>
        ''d'' \<in> set (memory_files (fs_out (node_collector_cycle sorted_list_of_set scenario_models
          scenario_tensors ''node1''
          (scenario_input [''pod-m1-xyz''] {''a'', ''b'', ''c''} no_faults 65000000)
          [''c'' \<mapsto> 0, ''d'' \<mapsto> 0]))) \<and>
        dict_out (node_collector_cycle sorted_list_of_set scenario_models
          scenario_tensors ''node1''
          (scenario_input [''pod-m1-xyz''] {''a'', ''b'', ''c''} no_faults 65000000)
          [''c'' \<mapsto> 0, ''d'' \<mapsto> 0]) ''d'' = Some 0 \<and>
        (\<exists>p'. collector_plan sorted_list_of_set scenario_models scenario_tensors ''node1''
          (scenario_input [''pod-m1-xyz''] {''a'', ''b'', ''c''} no_faults 70000000)
          (dict_out (node_collector_cycle sorted_list_of_set scenario_models
             scenario_tensors ''node1''
             (scenario_input [''pod-m1-xyz''] {''a'', ''b'', ''c''} no_faults 65000000)
             [''c'' \<mapsto> 0, ''d'' \<mapsto> 0])) = Inr p' \<and>
          ''d'' \<in> expired_tensor_set p'))"
proof -
  let ?c = "scenario_input [''pod-m1-xyz''] {''a'', ''b'', ''c''} no_faults 65000000"
  let ?c' = "scenario_input [''pod-m1-xyz''] {''a'', ''b'', ''c''} no_faults 70000000"
  let ?d = "[''c'' \<mapsto> 0, ''d'' \<mapsto> (0::int)]"
  let ?plan = "collector_plan sorted_list_of_set scenario_models scenario_tensors ''node1'' ?c ?d"
  let ?r = "node_collector_cycle sorted_list_of_set scenario_models scenario_tensors ''node1'' ?c ?d"
  let ?plan' = "collector_plan sorted_list_of_set scenario_models scenario_tensors ''node1'' ?c' (dict_out ?r)"
  have "case ?plan of Inl e \<Rightarrow> False | Inr p \<Rightarrow> ''d'' \<in> expired_tensor_set p"
    by code_simp
  then obtain p where p: "?plan = Inr p" and e: "''d'' \<in> expired_tensor_set p"
    by (cases ?plan) auto
  have l: "''d'' \<notin> lock_files (fs_in ?c)"
    by (simp add: scenario_input_def)
  have "case ?plan' of Inl e \<Rightarrow> False | Inr p' \<Rightarrow> ''d'' \<in> delete_tensor_set p'"
    by code_simp
  then obtain p' where p': "?plan' = Inr p'" and s: "''d'' \<in> delete_tensor_set p'"
    by (cases ?plan') auto
  have t: "now_in ?c ''d'' \<le> now_in ?c' ''d''"
    by (simp add: scenario_input_def)
  note th = fail_safe_deletion[OF iterates_sorted p e l]
  have "''d'' \<in> expired_tensor_set p'"
    using th p' s t by blast
  moreover have "dict_out ?r ''d'' = Some 0"
    using th by simp
  moreover have "''d'' \<in> set (memory_files (fs_out ?r))"
    using th by blast
  ultimately show ?thesis
    using iterates_sorted p e l p' by blast
qed

text \<open>
  C6, idempotent re-eviction. \<^verbatim>\<open>delete_tensors\<close> on a tensor whose cache file
  is absent returns without an error, leaves the file system as it is and makes no
  system call with an effect: no lock file is opened or locked and nothing is removed.
  In a call on several tensors, no event and no error is about such a tensor.
\<close>

theorem idempotent_re_eviction:
  assumes "t \<notin> set (memory_files fs)"
  shows "delete_tensors flt [t] fs = (None, fs, [])
       \<and> (\<forall>ts r fs' evs. delete_tensors flt ts fs = (r, fs', evs) \<longrightarrow>
             (\<forall>e \<in> set evs. event_tensor e \<noteq> t) \<and>
             t \<notin> set (memory_files fs') \<and>
             r \<noteq> Some (OpenError t) \<and> r \<noteq> Some (LockfError t) \<and> r \<noteq> Some (RemoveError t))"
proof -
  have one: "delete_tensors flt [t] fs = (None, fs, [])"
    using assms by simp
  have many: "(\<forall>e \<in> set evs. event_tensor e \<noteq> t) \<and> t \<notin> set (memory_files fs') \<and>
        r \<noteq> Some (OpenError t) \<and> r \<noteq> Some (LockfError t) \<and> r \<noteq> Some (RemoveError t)"
    if run: "delete_tensors flt ts fs = (r, fs', evs)" for ts r fs' evs
  proof -
    have "\<forall>e \<in> set evs. event_tensor e \<noteq> t"
      using delete_tensors_events_about[OF run] assms by blast
    moreover have "t \<notin> set (memory_files fs')"
      using delete_tensors_memory[OF run] assms by simp
    moreover have "r \<noteq> Some (OpenError t) \<and> r \<noteq> Some (LockfError t) \<and> r \<noteq> Some (RemoveError t)"
    proof (cases r)
      case None
      then show ?thesis by simp
    next
      case (Some e)
      then obtain u where "u \<in> set (memory_files fs)"
        "e = OpenError u \<or> e = LockfError u \<or> e = RemoveError u"
        using delete_tensors_raised[of flt ts fs e fs' evs] run by auto
      then show ?thesis using Some assms by auto
    qed
    ultimately show ?thesis by simp
  qed
  show ?thesis using one many by blast
qed

theorem idempotent_re_eviction_witness:
  "''z'' \<notin> set (memory_files \<lparr>memory_files = [''a'', ''d''], lock_files = {''a'', ''d'', ''z''}\<rparr>)
   \<and> delete_tensors no_faults [''z'']
        \<lparr>memory_files = [''a'', ''d''], lock_files = {''a'', ''d'', ''z''}\<rparr>
       = (None, \<lparr>memory_files = [''a'', ''d''], lock_files = {''a'', ''d'', ''z''}\<rparr>, [])
   \<and> snd (snd (delete_tensors no_faults [''z'', ''d'']
        \<lparr>memory_files = [''a'', ''d''], lock_files = {''a'', ''d'', ''z''}\<rparr>))
       = [Open_lock ''d'', Lockf_EX ''d'', Os_remove ''d'', Lockf_UN ''d'']"
proof -
  let ?fs = "\<lparr>memory_files = [''a'', ''d''], lock_files = {''a'', ''d'', ''z''}\<rparr>"
  have h: "''z'' \<notin> set (memory_files ?fs)" by simp
  have "delete_tensors no_faults [''z''] ?fs = (None, ?fs, [])"
    using idempotent_re_eviction[OF h, of no_faults] by blast
  moreover have "snd (snd (delete_tensors no_faults [''z'', ''d''] ?fs))
       = [Open_lock ''d'', Lockf_EX ''d'', Os_remove ''d'', Lockf_UN ''d'']"
    by (simp add: no_faults_def)
  ultimately show ?thesis using h by blast
qed

text \<open>
  C7, the lock discipline. In the events of \<^verbatim>\<open>delete_tensors\<close>, every removal of
  a cache file comes right after the opening and the exclusive locking of the lock file of
  the same tensor, which exists, and right before its unlocking. A cache file that was
  there before the call and is not after it was removed inside such a block, and the call
  adds no file.
\<close>

theorem lock_discipline:
  assumes "delete_tensors flt ts fs = (r, fs', evs)"
  shows "(\<forall>pre t post. evs = pre @ Os_remove t # post \<longrightarrow>
            (\<exists>pre'. pre = pre' @ [Open_lock t, Lockf_EX t]) \<and>
            (\<exists>post'. post = Lockf_UN t # post') \<and>
            t \<in> lock_files fs)
       \<and> (\<forall>t. t \<in> set (memory_files fs) \<and> t \<notin> set (memory_files fs') \<longrightarrow>
            (\<exists>pre post. evs = pre @ [Open_lock t, Lockf_EX t, Os_remove t, Lockf_UN t] @ post))
       \<and> (\<forall>t. t \<in> set (memory_files fs') \<longrightarrow> t \<in> set (memory_files fs))"
proof -
  have g: "guarded evs" using assms by (rule delete_tensors_guarded)
  have a: "(\<exists>pre'. pre = pre' @ [Open_lock t, Lockf_EX t]) \<and>
           (\<exists>post'. post = Lockf_UN t # post') \<and> t \<in> lock_files fs"
    if "evs = pre @ Os_remove t # post" for pre t post
  proof -
    have "Os_remove t \<in> set evs" using that by simp
    then have "t \<in> lock_files fs"
      using delete_tensors_events_about[OF assms, of "Os_remove t"] by simp
    then show ?thesis using g that unfolding guarded_def by blast
  qed
  have m: "set (memory_files fs') = set (memory_files fs) - {t. Os_remove t \<in> set evs}"
    using assms by (rule delete_tensors_memory)
  have b: "\<exists>pre post. evs = pre @ [Open_lock t, Lockf_EX t, Os_remove t, Lockf_UN t] @ post"
    if "t \<in> set (memory_files fs) \<and> t \<notin> set (memory_files fs')" for t
  proof -
    have "Os_remove t \<in> set evs" using that m by auto
    then show ?thesis using g by (rule guarded_removal[rotated])
  qed
  have c: "t \<in> set (memory_files fs') \<Longrightarrow> t \<in> set (memory_files fs)" for t
    using m by auto
  show ?thesis using a b c by blast
qed

theorem lock_discipline_witness:
  "delete_tensors no_faults [''c'', ''d'']
      \<lparr>memory_files = [''a'', ''c'', ''d''], lock_files = {''a'', ''c''}\<rparr>
     = (None, \<lparr>memory_files = [''a'', ''d''], lock_files = {''a'', ''c''}\<rparr>,
        [Open_lock ''c'', Lockf_EX ''c'', Os_remove ''c'', Lockf_UN ''c''])
   \<and> (\<exists>pre post. [Open_lock ''c'', Lockf_EX ''c'', Os_remove ''c'', Lockf_UN ''c'']
         = pre @ [Open_lock ''c'', Lockf_EX ''c'', Os_remove ''c'', Lockf_UN ''c''] @ post)"
proof -
  let ?fs = "\<lparr>memory_files = [''a'', ''c'', ''d''], lock_files = {''a'', ''c''}\<rparr>"
  let ?fs' = "\<lparr>memory_files = [''a'', ''d''], lock_files = {''a'', ''c''}\<rparr>"
  let ?evs = "[Open_lock ''c'', Lockf_EX ''c'', Os_remove ''c'', Lockf_UN ''c'']"
  have run: "delete_tensors no_faults [''c'', ''d''] ?fs = (None, ?fs', ?evs)"
    by (simp add: no_faults_def)
  have "''c'' \<in> set (memory_files ?fs) \<and> ''c'' \<notin> set (memory_files ?fs')" by simp
  then have "\<exists>pre post. ?evs = pre @ [Open_lock ''c'', Lockf_EX ''c'', Os_remove ''c'', Lockf_UN ''c''] @ post"
    using lock_discipline[OF run] by blast
  then show ?thesis using run by blast
qed

text \<open>
  C10, the dictionary only grows. \<^verbatim>\<open>get_expired_tensor\<close> leaves every entry as
  it is and adds, for a stale tensor without an entry, the reading of the clock of its
  round; a round of the loop does the same and nothing else, since
  \<^verbatim>\<open>delete_tensors\<close> is not given the dictionary. So an entry, once there, is
  there with the same timestamp after every round and at the end of every run of the loop,
  whether the tensor is live again or was removed from the cache in between.
\<close>

theorem registry_insert_only:
  "snd (get_expired_tensor now xs d) t =
     (case d t of Some s \<Rightarrow> Some s | None \<Rightarrow> if t \<in> set xs then Some (now t) else None)
   \<and> (iterates iter \<longrightarrow>
        dict_out (node_collector_cycle iter models model_tensors node_name c d) t =
          (case d t of
             Some s \<Rightarrow> Some s
           | None \<Rightarrow>
               (case collector_plan iter models model_tensors node_name c d of
                  Inl e \<Rightarrow> None
                | Inr p \<Rightarrow> if t \<in> delete_tensor_set p then Some (now_in c t) else None)))
   \<and> (d t = Some s \<longrightarrow>
        dict_out (node_collector_cycle iter models model_tensors node_name c d) t = Some s \<and>
        final_dict (collector_loop iter models model_tensors node_name cs d) t = Some s)"
proof (intro conjI impI)
  show "snd (get_expired_tensor now xs d) t =
     (case d t of Some s \<Rightarrow> Some s | None \<Rightarrow> if t \<in> set xs then Some (now t) else None)"
    by (rule get_expired_tensor_dict)
next
  assume it: "iterates iter"
  show "dict_out (node_collector_cycle iter models model_tensors node_name c d) t =
          (case d t of
             Some s \<Rightarrow> Some s
           | None \<Rightarrow>
               (case collector_plan iter models model_tensors node_name c d of
                  Inl e \<Rightarrow> None
                | Inr p \<Rightarrow> if t \<in> delete_tensor_set p then Some (now_in c t) else None))"
  proof (cases "collector_plan iter models model_tensors node_name c d")
    case (Inl e)
    then show ?thesis by (simp add: cycle_Inl split: option.splits)
  next
    case (Inr p)
    then show ?thesis
      using cycle_Inr(2)[OF Inr] plan_dict[OF it Inr, of t] by (simp split: option.splits)
  qed
next
  assume "d t = Some s"
  then show "dict_out (node_collector_cycle iter models model_tensors node_name c d) t = Some s"
    by (rule cycle_dict_keeps)
next
  assume "d t = Some s"
  then show "final_dict (collector_loop iter models model_tensors node_name cs d) t = Some s"
    by (rule loop_dict_keeps)
qed

theorem registry_insert_only_witness:
  "[''a'' \<mapsto> 0] ''a'' = Some (0::int)
   \<and> final_dict (collector_loop sorted_list_of_set scenario_models scenario_tensors ''node1''
        [scenario_input [''pod-m1-xyz''] {''a'', ''b'', ''c'', ''d''} no_faults 30000000,
         scenario_input [] {''a'', ''b'', ''c'', ''d''} no_faults 70000000]
        [''a'' \<mapsto> 0]) ''a'' = Some 0
   \<and> Os_remove ''a'' \<in> set (all_events (collector_loop sorted_list_of_set scenario_models
        scenario_tensors ''node1''
        [scenario_input [''pod-m1-xyz''] {''a'', ''b'', ''c'', ''d''} no_faults 30000000,
         scenario_input [] {''a'', ''b'', ''c'', ''d''} no_faults 70000000]
        [''a'' \<mapsto> 0]))"
proof -
  have h: "[''a'' \<mapsto> 0] ''a'' = Some (0::int)" by simp
  have "final_dict (collector_loop sorted_list_of_set scenario_models scenario_tensors ''node1''
        [scenario_input [''pod-m1-xyz''] {''a'', ''b'', ''c'', ''d''} no_faults 30000000,
         scenario_input [] {''a'', ''b'', ''c'', ''d''} no_faults 70000000]
        [''a'' \<mapsto> 0]) ''a'' = Some 0"
    using registry_insert_only[of _ _ "[''a'' \<mapsto> 0]" "''a''" sorted_list_of_set
        scenario_models scenario_tensors "''node1''" _ 0] h
    by blast
  moreover have "Os_remove ''a'' \<in> set (all_events (collector_loop sorted_list_of_set scenario_models
        scenario_tensors ''node1''
        [scenario_input [''pod-m1-xyz''] {''a'', ''b'', ''c'', ''d''} no_faults 30000000,
         scenario_input [] {''a'', ''b'', ''c'', ''d''} no_faults 70000000]
        [''a'' \<mapsto> 0]))"
    by code_simp
  ultimately show ?thesis using h by blast
qed

text \<open>
  C9, the computation of the live set. \<^verbatim>\<open>is_running\<close> holds for a model exactly
  when some pod name contains the name of the model as a contiguous piece. The loop over
  the running models yields the union of their tensor sets (every model has an entry in
  \<^verbatim>\<open>model_tensors\<close>, which is built from the list of models), and in a round
  \<open>running_tensor_set\<close> is that union and \<open>delete_tensor_set\<close> the cached tensors
  without it. With the models \<open>m1\<close> (\<open>a\<close>, \<open>b\<close>) and \<open>m2\<close> (\<open>b\<close>, \<open>c\<close>)
  and the one pod \<open>pod-m1-xyz\<close>, only \<open>m1\<close> runs, the live set is \<open>a\<close>, \<open>b\<close>, and
  with \<open>a\<close>, \<open>b\<close>, \<open>c\<close>, \<open>d\<close> in the cache the stale set is \<open>c\<close>, \<open>d\<close>.
\<close>

theorem live_set_computation:
  "(is_running m pods \<longleftrightarrow> (\<exists>w \<in> set pods. \<exists>pre suf. w = pre @ m @ suf))
   \<and> (set models \<subseteq> dom model_tensors \<longrightarrow>
        union_tensors model_tensors (filter (\<lambda>m. is_running m pods) models) {} =
          Inr (\<Union>m \<in> {m \<in> set models. is_running m pods}. the (model_tensors m)))
   \<and> (collector_plan iter models model_tensors node_name c d = Inr p \<longrightarrow>
        running_tensor_set p =
          {t. \<exists>m \<in> set models. \<exists>ts.
                is_running m (map pod_name (filter (\<lambda>q. pod_node q = Some node_name) (pod_list c))) \<and>
                model_tensors m = Some ts \<and> t \<in> ts} \<and>
        delete_tensor_set p = set (memory_files (fs_in c)) - running_tensor_set p)
   \<and> is_running ''m1'' [''pod-m1-xyz''] \<and> \<not> is_running ''m2'' [''pod-m1-xyz'']
   \<and> union_tensors [''m1'' \<mapsto> {''a'', ''b''}, ''m2'' \<mapsto> {''b'', ''c''}]
        (filter (\<lambda>m. is_running m [''pod-m1-xyz'']) [''m1'', ''m2'']) {} = Inr {''a'', ''b''}
   \<and> (\<exists>q. collector_plan sorted_list_of_set scenario_models scenario_tensors ''node1''
          (scenario_input [''pod-m1-xyz''] {''a'', ''b'', ''c'', ''d''} no_faults 0) Map.empty = Inr q \<and>
        running_tensor_set q = {''a'', ''b''} \<and> existing_tensor_set q = {''a'', ''b'', ''c'', ''d''} \<and>
        delete_tensor_set q = {''c'', ''d''})"
proof (intro conjI impI)
  show "is_running m pods \<longleftrightarrow> (\<exists>w \<in> set pods. \<exists>pre suf. w = pre @ m @ suf)"
    by (simp add: is_running_iff str_in_iff)
next
  assume sub: "set models \<subseteq> dom model_tensors"
  have "set (filter (\<lambda>m. is_running m pods) models) \<subseteq> dom model_tensors"
    using sub by auto
  then have "union_tensors model_tensors (filter (\<lambda>m. is_running m pods) models) {} =
      Inr ({} \<union> (\<Union>m \<in> set (filter (\<lambda>m. is_running m pods) models). the (model_tensors m)))"
    by (rule union_tensors_Inr)
  then show "union_tensors model_tensors (filter (\<lambda>m. is_running m pods) models) {} =
          Inr (\<Union>m \<in> {m \<in> set models. is_running m pods}. the (model_tensors m))"
    by simp
next
  assume p: "collector_plan iter models model_tensors node_name c d = Inr p"
  show "running_tensor_set p =
          {t. \<exists>m \<in> set models. \<exists>ts.
                is_running m (map pod_name (filter (\<lambda>q. pod_node q = Some node_name) (pod_list c))) \<and>
                model_tensors m = Some ts \<and> t \<in> ts}"
    unfolding plan_running[OF p] by blast
next
  assume p: "collector_plan iter models model_tensors node_name c d = Inr p"
  show "delete_tensor_set p = set (memory_files (fs_in c)) - running_tensor_set p"
    using collector_plan_Inr(2,3)[OF p] by simp
next
  show "is_running ''m1'' [''pod-m1-xyz'']" by code_simp
next
  show "\<not> is_running ''m2'' [''pod-m1-xyz'']" by code_simp
next
  show "union_tensors [''m1'' \<mapsto> {''a'', ''b''}, ''m2'' \<mapsto> {''b'', ''c''}]
        (filter (\<lambda>m. is_running m [''pod-m1-xyz'']) [''m1'', ''m2'']) {} = Inr {''a'', ''b''}"
    by code_simp
next
  let ?plan = "collector_plan sorted_list_of_set scenario_models scenario_tensors ''node1''
          (scenario_input [''pod-m1-xyz''] {''a'', ''b'', ''c'', ''d''} no_faults 0) Map.empty"
  have "case ?plan of Inl e \<Rightarrow> False
        | Inr q \<Rightarrow> running_tensor_set q = {''a'', ''b''} \<and>
            existing_tensor_set q = {''a'', ''b'', ''c'', ''d''} \<and> delete_tensor_set q = {''c'', ''d''}"
    by code_simp
  then show "\<exists>q. ?plan = Inr q \<and>
        running_tensor_set q = {''a'', ''b''} \<and> existing_tensor_set q = {''a'', ''b'', ''c'', ''d''} \<and>
        delete_tensor_set q = {''c'', ''d''}"
    by (cases ?plan) auto
qed

theorem live_set_computation_witness:
  "is_running ''m1'' [''pod-m2-abc'', ''pod-m1-xyz'']
   \<and> (\<exists>p. collector_plan sorted_list_of_set scenario_models scenario_tensors ''node1''
          (scenario_input [''pod-m1-xyz'', ''pod-m2-xyz''] {''a'', ''b'', ''c'', ''d''} no_faults 0)
          Map.empty = Inr p \<and>
        ''c'' \<in> running_tensor_set p \<and>
        delete_tensor_set p = set [''a'', ''b'', ''c'', ''d''] - running_tensor_set p)"
proof -
  let ?c = "scenario_input [''pod-m1-xyz'', ''pod-m2-xyz''] {''a'', ''b'', ''c'', ''d''} no_faults 0"
  let ?plan = "collector_plan sorted_list_of_set scenario_models scenario_tensors ''node1'' ?c Map.empty"
  have w: "''pod-m1-xyz'' \<in> set [''pod-m2-abc'', ''pod-m1-xyz'']" by simp
  have e: "''pod-m1-xyz'' = ''pod-'' @ ''m1'' @ ''-xyz''" by simp
  have "\<exists>w \<in> set [''pod-m2-abc'', ''pod-m1-xyz'']. \<exists>pre suf. w = pre @ ''m1'' @ suf"
    using w e by (intro bexI exI)
  then have r: "is_running ''m1'' [''pod-m2-abc'', ''pod-m1-xyz'']"
    by (rule iffD2[OF live_set_computation[THEN conjunct1]])
  have "case ?plan of Inl e \<Rightarrow> False | Inr p \<Rightarrow> ''c'' \<in> running_tensor_set p"
    by code_simp
  then obtain p where p: "?plan = Inr p" and c: "''c'' \<in> running_tensor_set p"
    by (cases ?plan) auto
  have m: "memory_files (fs_in ?c) = [''a'', ''b'', ''c'', ''d'']"
    by (simp add: scenario_input_def)
  have "delete_tensor_set p = set (memory_files (fs_in ?c)) - running_tensor_set p"
    using live_set_computation[THEN conjunct2, THEN conjunct2, THEN conjunct1, rule_format, OF p]
    by (rule conjunct2)
  then have "delete_tensor_set p = set [''a'', ''b'', ''c'', ''d''] - running_tensor_set p"
    unfolding m .
  then show ?thesis using r p c by blast
qed

text \<open>
  C1 as the specification states it does not hold. In a run of three rounds from the empty
  dictionary, with the four tensors cached throughout: no pod runs in the first round, at
  time 0, and \<open>a\<close> gets the entry 0; the pod of \<open>m1\<close> runs in the second round, 30
  seconds later, so \<open>a\<close> is cached, live and tracked, and after that round its entry is
  still 0; no pod runs in the third round, at 70 seconds, and \<open>a\<close> is removed in that
  very round, 40 seconds after it was last in demand.
\<close>

theorem demand_reset_counterexample:
  "is_running ''m1'' [''pod-m1-xyz'']
   \<and> scenario_tensors ''m1'' = Some {''a'', ''b''}
   \<and> ''a'' \<in> set (memory_files (fs_in
         (scenario_input [''pod-m1-xyz''] {''a'', ''b'', ''c'', ''d''} no_faults 30000000)))
   \<and> final_dict (node_collector sorted_list_of_set scenario_models scenario_tensors ''node1''
        [scenario_input [] {''a'', ''b'', ''c'', ''d''} no_faults 0]) ''a'' = Some 0
   \<and> final_dict (node_collector sorted_list_of_set scenario_models scenario_tensors ''node1''
        [scenario_input [] {''a'', ''b'', ''c'', ''d''} no_faults 0,
         scenario_input [''pod-m1-xyz''] {''a'', ''b'', ''c'', ''d''} no_faults 30000000]) ''a'' = Some 0
   \<and> Os_remove ''a'' \<in> set (all_events (node_collector sorted_list_of_set scenario_models
        scenario_tensors ''node1''
        [scenario_input [] {''a'', ''b'', ''c'', ''d''} no_faults 0,
         scenario_input [''pod-m1-xyz''] {''a'', ''b'', ''c'', ''d''} no_faults 30000000,
         scenario_input [] {''a'', ''b'', ''c'', ''d''} no_faults 70000000]))"
  by code_simp

text \<open>
  C1, amended. Demand does not reset the timestamp. A tensor with an entry in the
  dictionary that is cached and live in a round is not stale, is not given to
  \<^verbatim>\<open>delete_tensors\<close> and is not removed in that round, and its entry stays with
  the timestamp it had. In a later round in which the tensor is stale, it is expired
  exactly when the clock has reached that first timestamp plus the keep-alive time.
\<close>

theorem demand_keeps_timestamp:
  assumes "iterates iter"
    and "collector_plan iter models model_tensors node_name c d = Inr p"
    and "t \<in> existing_tensor_set p"
    and "t \<in> running_tensor_set p"
    and "d t = Some stamp"
  shows "t \<notin> delete_tensor_set p \<and> t \<notin> expired_tensor_set p
       \<and> Os_remove t \<notin> set (events (node_collector_cycle iter models model_tensors node_name c d))
       \<and> dict_out (node_collector_cycle iter models model_tensors node_name c d) t = Some stamp
       \<and> (\<forall>c' p'. collector_plan iter models model_tensors node_name c'
                     (dict_out (node_collector_cycle iter models model_tensors node_name c d)) = Inr p' \<and>
                   t \<in> delete_tensor_set p'
                   \<longrightarrow> (t \<in> expired_tensor_set p' \<longleftrightarrow>
                          stamp + timedelta_minutes KEEP_ALIVE \<le> now_in c' t))"
proof -
  let ?r = "node_collector_cycle iter models model_tensors node_name c d"
  have nd: "t \<notin> delete_tensor_set p"
    using collector_plan_Inr(3)[OF assms(2)] assms(4) by simp
  then have ne: "t \<notin> expired_tensor_set p"
    unfolding plan_expired[OF assms(1,2)] by simp
  have nr: "Os_remove t \<notin> set (events ?r)"
    using cycle_events_expired(1)[OF assms(1,2), of "Os_remove t"] ne by auto
  have k: "dict_out ?r t = Some stamp"
    using assms(5) by (rule cycle_dict_keeps)
  have later: "t \<in> expired_tensor_set p' \<longleftrightarrow> stamp + timedelta_minutes KEEP_ALIVE \<le> now_in c' t"
    if "collector_plan iter models model_tensors node_name c' (dict_out ?r) = Inr p'"
      and "t \<in> delete_tensor_set p'" for c' p'
    unfolding plan_expired[OF assms(1) that(1)] using that(2) k by simp
  show ?thesis using nd ne nr k later by blast
qed

theorem demand_keeps_timestamp_witness:
  "iterates sorted_list_of_set \<and>
   (\<exists>p. collector_plan sorted_list_of_set scenario_models scenario_tensors ''node1''
          (scenario_input [''pod-m1-xyz''] {''a'', ''b'', ''c'', ''d''} no_faults 30000000)
          [''a'' \<mapsto> 0] = Inr p \<and>
        ''a'' \<in> existing_tensor_set p \<and> ''a'' \<in> running_tensor_set p \<and>
        ''a'' \<notin> expired_tensor_set p \<and>
        dict_out (node_collector_cycle sorted_list_of_set scenario_models scenario_tensors ''node1''
          (scenario_input [''pod-m1-xyz''] {''a'', ''b'', ''c'', ''d''} no_faults 30000000)
          [''a'' \<mapsto> 0]) ''a'' = Some 0)"
proof -
  let ?c = "scenario_input [''pod-m1-xyz''] {''a'', ''b'', ''c'', ''d''} no_faults 30000000"
  let ?d = "[''a'' \<mapsto> (0::int)]"
  let ?plan = "collector_plan sorted_list_of_set scenario_models scenario_tensors ''node1'' ?c ?d"
  have "case ?plan of Inl e \<Rightarrow> False
        | Inr p \<Rightarrow> ''a'' \<in> existing_tensor_set p \<and> ''a'' \<in> running_tensor_set p"
    by code_simp
  then obtain p where p: "?plan = Inr p"
    and e: "''a'' \<in> existing_tensor_set p" and r: "''a'' \<in> running_tensor_set p"
    by (cases ?plan) auto
  have s: "?d ''a'' = Some 0" by simp
  note th = demand_keeps_timestamp[OF iterates_sorted p e r s]
  have "''a'' \<notin> expired_tensor_set p" using th by blast
  moreover have "dict_out (node_collector_cycle sorted_list_of_set scenario_models
      scenario_tensors ''node1'' ?c ?d) ''a'' = Some 0"
    using th by blast
  ultimately show ?thesis using iterates_sorted p e r by blast
qed

text \<open>
  C4 as the specification states it does not hold. In a round at 65 seconds with \<open>c\<close>
  stale since 0, \<open>c\<close> is removed from the cache without an error and its entry is still
  in the dictionary afterwards; \<open>z\<close>, which has an entry but no file in the cache, keeps
  its entry as well.
\<close>

theorem registry_pruning_counterexample:
  "raised (node_collector_cycle sorted_list_of_set scenario_models scenario_tensors ''node1''
      (scenario_input [''pod-m1-xyz''] {''a'', ''b'', ''c'', ''d''} no_faults 65000000)
      [''c'' \<mapsto> 0, ''z'' \<mapsto> 0]) = None
   \<and> Os_remove ''c'' \<in> set (events (node_collector_cycle sorted_list_of_set scenario_models
      scenario_tensors ''node1''
      (scenario_input [''pod-m1-xyz''] {''a'', ''b'', ''c'', ''d''} no_faults 65000000)
      [''c'' \<mapsto> 0, ''z'' \<mapsto> 0]))
   \<and> ''c'' \<notin> set (memory_files (fs_out (node_collector_cycle sorted_list_of_set scenario_models
      scenario_tensors ''node1''
      (scenario_input [''pod-m1-xyz''] {''a'', ''b'', ''c'', ''d''} no_faults 65000000)
      [''c'' \<mapsto> 0, ''z'' \<mapsto> 0])))
   \<and> dict_out (node_collector_cycle sorted_list_of_set scenario_models scenario_tensors ''node1''
      (scenario_input [''pod-m1-xyz''] {''a'', ''b'', ''c'', ''d''} no_faults 65000000)
      [''c'' \<mapsto> 0, ''z'' \<mapsto> 0]) ''c'' = Some 0
   \<and> ''z'' \<notin> set (memory_files (fs_in
      (scenario_input [''pod-m1-xyz''] {''a'', ''b'', ''c'', ''d''} no_faults 65000000)))
   \<and> dict_out (node_collector_cycle sorted_list_of_set scenario_models scenario_tensors ''node1''
      (scenario_input [''pod-m1-xyz''] {''a'', ''b'', ''c'', ''d''} no_faults 65000000)
      [''c'' \<mapsto> 0, ''z'' \<mapsto> 0]) ''z'' = Some 0"
  by code_simp

text \<open>
  C4, amended. No entry leaves the dictionary. A tensor that a round removes from the
  cache had an entry, and after the round the file is gone and the entry is still there
  with the same timestamp; the entry of a tensor that is not in the cache at all stays as
  it is, too.
\<close>

theorem registry_entries_survive:
  "(iterates iter \<and>
    Os_remove t \<in> set (events (node_collector_cycle iter models model_tensors node_name c d)) \<longrightarrow>
      t \<notin> set (memory_files (fs_out (node_collector_cycle iter models model_tensors node_name c d))) \<and>
      (\<exists>stamp. d t = Some stamp \<and>
         dict_out (node_collector_cycle iter models model_tensors node_name c d) t = Some stamp))
   \<and> (d t = Some stamp \<and> t \<notin> set (memory_files (fs_in c)) \<longrightarrow>
      dict_out (node_collector_cycle iter models model_tensors node_name c d) t = Some stamp)"
proof (intro conjI impI)
  let ?r = "node_collector_cycle iter models model_tensors node_name c d"
  assume a: "iterates iter \<and> Os_remove t \<in> set (events ?r)"
  then have it: "iterates iter" and rem: "Os_remove t \<in> set (events ?r)" by simp_all
  obtain p where p: "collector_plan iter models model_tensors node_name c d = Inr p"
  proof (cases "collector_plan iter models model_tensors node_name c d")
    case (Inl e)
    then have "events ?r = []" by (simp add: cycle_Inl)
    then show ?thesis using rem by simp
  next
    case (Inr p)
    then show ?thesis by (rule that)
  qed
  have "t \<in> expired_tensor_set p"
    using cycle_events_expired(1)[OF it p rem] by simp
  then obtain stamp where st: "d t = Some stamp"
    unfolding plan_expired[OF it p] by auto
  have "dict_out ?r t = Some stamp" using st by (rule cycle_dict_keeps)
  then show "\<exists>stamp. d t = Some stamp \<and> dict_out ?r t = Some stamp" using st by blast
  show "t \<notin> set (memory_files (fs_out ?r))"
    using delete_tensors_memory[OF cycle_Inr(1)[OF p]] rem by simp
next
  assume "d t = Some stamp \<and> t \<notin> set (memory_files (fs_in c))"
  then have "d t = Some stamp" by simp
  then show "dict_out (node_collector_cycle iter models model_tensors node_name c d) t = Some stamp"
    by (rule cycle_dict_keeps)
qed

theorem registry_entries_survive_witness:
  "iterates sorted_list_of_set
   \<and> Os_remove ''d'' \<in> set (events (node_collector_cycle sorted_list_of_set scenario_models
      scenario_tensors ''node1''
      (scenario_input [''pod-m1-xyz''] {''a'', ''b'', ''c'', ''d''} no_faults 90000000)
      [''d'' \<mapsto> 5]))
   \<and> ''d'' \<notin> set (memory_files (fs_out (node_collector_cycle sorted_list_of_set scenario_models
      scenario_tensors ''node1''
      (scenario_input [''pod-m1-xyz''] {''a'', ''b'', ''c'', ''d''} no_faults 90000000)
      [''d'' \<mapsto> 5])))
   \<and> dict_out (node_collector_cycle sorted_list_of_set scenario_models scenario_tensors ''node1''
      (scenario_input [''pod-m1-xyz''] {''a'', ''b'', ''c'', ''d''} no_faults 90000000)
      [''d'' \<mapsto> 5]) ''d'' = Some 5"
proof -
  let ?c = "scenario_input [''pod-m1-xyz''] {''a'', ''b'', ''c'', ''d''} no_faults 90000000"
  let ?d = "[''d'' \<mapsto> (5::int)]"
  let ?r = "node_collector_cycle sorted_list_of_set scenario_models scenario_tensors ''node1'' ?c ?d"
  have rem: "Os_remove ''d'' \<in> set (events ?r)"
    by code_simp
  have s: "?d ''d'' = Some 5" by simp
  have th: "''d'' \<notin> set (memory_files (fs_out ?r)) \<and>
      (\<exists>stamp. ?d ''d'' = Some stamp \<and> dict_out ?r ''d'' = Some stamp)"
    using registry_entries_survive[THEN conjunct1, rule_format, OF conjI[OF iterates_sorted rem]] .
  then have "dict_out ?r ''d'' = Some 5" using s by auto
  then show ?thesis using th rem iterates_sorted by blast
qed

text \<open>
  C8 as the specification states it does not hold. When the cache directory cannot be
  listed in the first of two rounds, the process ends with that error and completes no
  round. When the removal of \<open>c\<close> fails in a round in which \<open>c\<close> and \<open>d\<close> are expired,
  the round ends with that error after the locking of \<open>c\<close>, and \<open>d\<close>, which the same
  round removes when nothing fails, is still in the cache.
\<close>

theorem error_containment_counterexample:
  "crashed (node_collector sorted_list_of_set scenario_models scenario_tensors ''node1''
      [scenario_input [''pod-m1-xyz''] {''a'', ''b'', ''c'', ''d''} listdir_fault 0,
       scenario_input [''pod-m1-xyz''] {''a'', ''b'', ''c'', ''d''} no_faults 5000000])
     = Some ListdirError
   \<and> cycles_done (node_collector sorted_list_of_set scenario_models scenario_tensors ''node1''
      [scenario_input [''pod-m1-xyz''] {''a'', ''b'', ''c'', ''d''} listdir_fault 0,
       scenario_input [''pod-m1-xyz''] {''a'', ''b'', ''c'', ''d''} no_faults 5000000]) = 0
   \<and> raised (node_collector_cycle sorted_list_of_set scenario_models scenario_tensors ''node1''
      (scenario_input [''pod-m1-xyz''] {''a'', ''b'', ''c'', ''d''} (remove_fault {''c''}) 65000000)
      [''c'' \<mapsto> 0, ''d'' \<mapsto> 0]) = Some (RemoveError ''c'')
   \<and> events (node_collector_cycle sorted_list_of_set scenario_models scenario_tensors ''node1''
      (scenario_input [''pod-m1-xyz''] {''a'', ''b'', ''c'', ''d''} (remove_fault {''c''}) 65000000)
      [''c'' \<mapsto> 0, ''d'' \<mapsto> 0]) = [Open_lock ''c'', Lockf_EX ''c'']
   \<and> ''d'' \<in> set (memory_files (fs_out (node_collector_cycle sorted_list_of_set scenario_models
      scenario_tensors ''node1''
      (scenario_input [''pod-m1-xyz''] {''a'', ''b'', ''c'', ''d''} (remove_fault {''c''}) 65000000)
      [''c'' \<mapsto> 0, ''d'' \<mapsto> 0])))
   \<and> Os_remove ''d'' \<in> set (events (node_collector_cycle sorted_list_of_set scenario_models
      scenario_tensors ''node1''
      (scenario_input [''pod-m1-xyz''] {''a'', ''b'', ''c'', ''d''} no_faults 65000000)
      [''c'' \<mapsto> 0, ''d'' \<mapsto> 0]))"
  by code_simp

text \<open>
  C8, amended. Errors are not contained: the code has no handler. When the cache
  directory cannot be listed, the round raises that error and leaves the files, the
  events and the dictionary as they were. An error that a round raises ends the loop in
  that round: no later round runs. When opening or locking the lock file or removing the
  cache file of a tensor fails, \<^verbatim>\<open>delete_tensors\<close> ends at that tensor with the
  error: what it did for the tensors before it stays, and the tensors after it in the
  order of iteration are not looked at, whatever they are.
\<close>

theorem errors_end_the_loop:
  "(listdir_fails (faults_in c) \<and> set models \<subseteq> dom model_tensors \<longrightarrow>
      node_collector_cycle iter models model_tensors node_name c d =
        \<lparr>raised = Some ListdirError, fs_out = fs_in c, events = [], dict_out = d\<rparr>)
   \<and> (raised (node_collector_cycle iter models model_tensors node_name c d) = Some e \<longrightarrow>
      crashed (collector_loop iter models model_tensors node_name (c # cs) d) = Some e \<and>
      cycles_done (collector_loop iter models model_tensors node_name (c # cs) d) = 0 \<and>
      all_events (collector_loop iter models model_tensors node_name (c # cs) d) =
        events (node_collector_cycle iter models model_tensors node_name c d))
   \<and> (delete_tensors flt ts1 fs = (None, fs1, evs1) \<and>
      t \<in> lock_files fs1 \<and> t \<in> set (memory_files fs1) \<and>
      (t \<in> open_fails flt \<or> t \<in> lockf_fails flt \<or> t \<in> remove_fails flt) \<longrightarrow>
      delete_tensors flt (ts1 @ t # ts2) fs =
        (if t \<in> open_fails flt then (Some (OpenError t), fs1, evs1)
         else if t \<in> lockf_fails flt then (Some (LockfError t), fs1, evs1 @ [Open_lock t])
         else (Some (RemoveError t), fs1, evs1 @ [Open_lock t, Lockf_EX t])))"
proof (intro conjI impI)
  assume "listdir_fails (faults_in c) \<and> set models \<subseteq> dom model_tensors"
  then have "collector_plan iter models model_tensors node_name c d = Inl ListdirError"
    using plan_listdir_fails by blast
  then show "node_collector_cycle iter models model_tensors node_name c d =
        \<lparr>raised = Some ListdirError, fs_out = fs_in c, events = [], dict_out = d\<rparr>"
    by (rule cycle_Inl)
next
  assume r: "raised (node_collector_cycle iter models model_tensors node_name c d) = Some e"
  show "crashed (collector_loop iter models model_tensors node_name (c # cs) d) = Some e"
    using r by (rule loop_crash(1))
  show "cycles_done (collector_loop iter models model_tensors node_name (c # cs) d) = 0"
    using r by (rule loop_crash(2))
  show "all_events (collector_loop iter models model_tensors node_name (c # cs) d) =
        events (node_collector_cycle iter models model_tensors node_name c d)"
    using r by (rule loop_crash(3))
next
  assume a: "delete_tensors flt ts1 fs = (None, fs1, evs1) \<and>
      t \<in> lock_files fs1 \<and> t \<in> set (memory_files fs1) \<and>
      (t \<in> open_fails flt \<or> t \<in> lockf_fails flt \<or> t \<in> remove_fails flt)"
  then have f: "delete_tensors flt (t # ts2) fs1 =
     (if t \<in> open_fails flt then (Some (OpenError t), fs1, [])
      else if t \<in> lockf_fails flt then (Some (LockfError t), fs1, [Open_lock t])
      else (Some (RemoveError t), fs1, [Open_lock t, Lockf_EX t]))"
    using delete_tensors_fails_at by blast
  have "delete_tensors flt (ts1 @ t # ts2) fs =
      (case delete_tensors flt (t # ts2) fs1 of (r, fs2, evs2) \<Rightarrow> (r, fs2, evs1 @ evs2))"
    using a by (simp add: delete_tensors_append del: delete_tensors.simps)
  then show "delete_tensors flt (ts1 @ t # ts2) fs =
        (if t \<in> open_fails flt then (Some (OpenError t), fs1, evs1)
         else if t \<in> lockf_fails flt then (Some (LockfError t), fs1, evs1 @ [Open_lock t])
         else (Some (RemoveError t), fs1, evs1 @ [Open_lock t, Lockf_EX t]))"
    unfolding f by simp
qed

theorem errors_end_the_loop_witness:
  "listdir_fails (faults_in (scenario_input [''pod-m1-xyz''] {''a'', ''b'', ''c'', ''d''} listdir_fault 0))
   \<and> set scenario_models \<subseteq> dom scenario_tensors
   \<and> raised (node_collector_cycle sorted_list_of_set scenario_models scenario_tensors ''node1''
        (scenario_input [''pod-m1-xyz''] {''a'', ''b'', ''c'', ''d''} listdir_fault 0) Map.empty)
       = Some ListdirError
   \<and> crashed (collector_loop sorted_list_of_set scenario_models scenario_tensors ''node1''
        [scenario_input [''pod-m1-xyz''] {''a'', ''b'', ''c'', ''d''} listdir_fault 0,
         scenario_input [''pod-m1-xyz''] {''a'', ''b'', ''c'', ''d''} no_faults 5000000] Map.empty)
       = Some ListdirError"
proof -
  let ?c = "scenario_input [''pod-m1-xyz''] {''a'', ''b'', ''c'', ''d''} listdir_fault 0"
  let ?c' = "scenario_input [''pod-m1-xyz''] {''a'', ''b'', ''c'', ''d''} no_faults 5000000"
  let ?r = "node_collector_cycle sorted_list_of_set scenario_models scenario_tensors ''node1'' ?c Map.empty"
  have l: "listdir_fails (faults_in ?c)"
    by (simp add: scenario_input_def listdir_fault_def)
  have s: "set scenario_models \<subseteq> dom scenario_tensors"
    by (simp add: scenario_models_def scenario_tensors_def)
  have "?r = \<lparr>raised = Some ListdirError, fs_out = fs_in ?c, events = [], dict_out = Map.empty\<rparr>"
    using errors_end_the_loop[THEN conjunct1, rule_format, OF conjI[OF l s]] .
  then have r: "raised ?r = Some ListdirError" by simp
  have "crashed (collector_loop sorted_list_of_set scenario_models scenario_tensors ''node1''
        (?c # [?c']) Map.empty) = Some ListdirError"
    using errors_end_the_loop[THEN conjunct2, THEN conjunct1, rule_format, OF r] by (rule conjunct1)
  then show ?thesis using l s r by blast
qed

end
